theory Spec2Isabelle
  imports Main
begin

section \<open>Values of the program\<close>

text \<open>
  The lifecycle states of \<^verbatim>\<open>lib/runner.js\<close> (the constants \<^verbatim>\<open>STATUS_STARTING\<close>,
  \<^verbatim>\<open>STATUS_STARTED\<close>, \<^verbatim>\<open>STATUS_STOPPING\<close>, \<^verbatim>\<open>STATUS_STOPPED\<close>).
\<close>

datatype status = STARTING | STARTED | STOPPING | STOPPED

text \<open>
  JavaScript errors: \<^verbatim>\<open>new Error(message)\<close>, \<^verbatim>\<open>new TypeError(message)\<close>, and the value
  built by \<^verbatim>\<open>combine(errors)\<close>.
\<close>

datatype error = Error string | TypeError string | MultiError "error list"

text \<open>
  Modelled from the spec: \<^verbatim>\<open>combine\<close> is the external package \<^verbatim>\<open>combine-errors\<close>, which is
  not among the sources. The spec's Aggregate Error is "a composite of one or more
  underlying errors"; the model keeps the list of underlying errors as it was passed.
\<close>

definition combine :: "error list \<Rightarrow> error" where
  "combine errors = MultiError errors"

subsection \<open>Plugins: the environment\<close>

text \<open>
  A plugin is foreign code. What the runners see of one of its methods
  (\<^verbatim>\<open>start(done)\<close>, \<^verbatim>\<open>stop(done)\<close>, \<^verbatim>\<open>ping(done)\<close>) is when and how often it
  signals completion. A method is described by the list of completion signals it gives,
  in order: each signal is given inside the method's own call (\<open>Sync\<close>), through
  \<^verbatim>\<open>process.nextTick\<close> (\<open>Tick\<close>), or from a later turn of the event loop such as
  \<^verbatim>\<open>setImmediate\<close> (\<open>Later\<close>), and passes an error or none. A well-behaved method has
  exactly one signal; the empty list is a method that never completes.
  \<open>None\<close> for a method means \<^verbatim>\<open>typeof plugin.method !== 'function'\<close>.
\<close>

datatype timing = Sync | Tick | Later

type_synonym completion = "timing \<times> error option"

datatype meth = MStart | MStop | MPing

record plugin =
  ident :: string
  proto :: "string option"
  emitter :: bool
  start_fn :: "completion list option"
  stop_fn :: "completion list option"
  ping_fn :: "completion list option"

text \<open>
  \<open>ident\<close> is the identity of the plugin object (what the tests push onto \<^verbatim>\<open>order\<close>);
  \<open>proto\<close> is the name of the constructor of its prototype (\<open>None\<close>: no prototype);
  \<open>emitter\<close> says that \<^verbatim>\<open>plugin.on\<close> is a function.
\<close>

subsection \<open>Callbacks, calls and listeners\<close>

type_synonym rid = nat
type_synonym fid = nat
type_synonym addr = nat

text \<open>The \<^verbatim>\<open>options\<close> argument of \<^verbatim>\<open>start\<close> and \<^verbatim>\<open>stop\<close>; \<open>None\<close> is \<^verbatim>\<open>null\<close>.\<close>

datatype run_options = Options (grace: bool)

definition graceful :: "run_options option \<Rightarrow> bool" where
  "graceful options = (case options of None \<Rightarrow> False | Some opts \<Rightarrow> grace opts)"

text \<open>
  The closures of the program, one constructor per function expression:
  \<^item> \<open>Caller u\<close>: the callback a caller passed in (or the one that settles the promise);
  \<^item> \<open>StartDone this callback\<close>: the arrow function handed to \<^verbatim>\<open>this._start\<close> in
    \<^verbatim>\<open>AbstractRunner.start\<close>; \<open>StopDone\<close> likewise for \<^verbatim>\<open>stop\<close>;
  \<^item> \<open>StartLoop f\<close>, \<open>CancelLoop f\<close>, \<open>StopLoop f\<close>: the \<^verbatim>\<open>loop\<close> closures of
    \<^verbatim>\<open>MultiRunner._start\<close>, \<^verbatim>\<open>_cancelStart\<close> and \<^verbatim>\<open>_stop\<close>; their captured variables
    live in frame \<open>f\<close>;
  \<^item> \<open>PingNext this\<close>: \<^verbatim>\<open>this._pingNext\<close>, bound in the constructor of \<^verbatim>\<open>Task\<close>.
\<close>

datatype callback =
    Caller nat
  | StartDone rid callback
  | StopDone rid callback
  | StartLoop fid
  | CancelLoop fid
  | StopLoop fid
  | PingNext rid

text \<open>
  A pending function call: on the call stack of the running turn, or queued by
  \<^verbatim>\<open>process.nextTick\<close> or for a later turn. \<open>Signal\<close> is the rest of a plugin method's
  body (the completion signals it has still to give) and \<open>Complete\<close> the plugin calling the
  callback it was given.
\<close>

datatype call =
    Invoke callback "error option"
  | Start rid "run_options option" callback
  | Stop rid "run_options option" callback
  | Signal string meth "completion list" callback
  | Complete string meth callback "error option"

datatype evname = EvStart | EvStop

text \<open>
  The listeners the program registers with \<^verbatim>\<open>this.once\<close>: the grace branches of
  \<^verbatim>\<open>start\<close> and \<^verbatim>\<open>stop\<close>.
\<close>

datatype listener =
    JoinL callback
  | ThenStart rid "run_options option" callback
  | ThenStop rid "run_options option" callback

subsection \<open>What is observed\<close>

text \<open>
  \<open>Hook r m g\<close>: the hook \<^verbatim>\<open>_start\<close> or \<^verbatim>\<open>_stop\<close> of runner \<open>r\<close> is invoked, by a call whose
  options had grace \<open>g\<close>. \<open>HookDone r m err\<close>: the hook signals completion.
  \<open>Called i m\<close>: method \<open>m\<close> of plugin \<open>i\<close> is called. \<open>Done i m err\<close>: the plugin calls back.
\<close>

datatype trace_event = Hook rid meth bool | HookDone rid meth "error option"

datatype plugin_event = Called string meth | Done string meth "error option"

datatype warning = Warning error | TelemetryWarning string

subsection \<open>Option objects\<close>

text \<open>
  Objects passed as plugin options live in a heap, so that copying and mutation can be
  told apart. An object is the map of its own enumerable properties. An options argument
  is \<^verbatim>\<open>null\<close>/\<^verbatim>\<open>undefined\<close>, a reference to an object, or a number or boolean (which
  has no own enumerable property). Strings and functions as options are not modelled.
\<close>

datatype jsvalue = Number int | String string | Boolean bool | Reference addr

type_synonym object = "string \<rightharpoonup> jsvalue"

datatype optarg = Nullish | Obj addr | Primitive

section \<open>The state\<close>

record wrapped =
  w_plugin :: plugin
  w_name :: string
  w_pingable :: bool

text \<open>The variables captured by a \<^verbatim>\<open>loop\<close> closure of \<^verbatim>\<open>MultiRunner\<close>.\<close>

record frame =
  f_self :: rid
  f_runners :: "rid list"
  f_pos :: nat
  f_errors :: "error list"
  f_callback :: callback

record multi_fields =
  startOrder :: "rid list"
  stopOrder :: "rid list"
  m_frozen :: bool

record task_fields =
  collectors :: "plugin list"
  processors :: "plugin list"
  publishers :: "plugin list"
  schedules :: "plugin list"
  pingablePlugins :: "wrapped list"
  t_frozen :: bool
  pinging :: bool
  multiRunner :: rid
  t_name :: string
  pingIndex :: nat
  pingCallback :: "callback option"
  noPingTarget :: string
  currentPingTarget :: string

datatype runner_class = DecoratedRunner | MultiRunner | Task

text \<open>
  The state of the process: the fields of every runner object (by class), the frames of
  the loop closures, the call stack of the running turn, the \<^verbatim>\<open>nextTick\<close> queue, the queue
  of later turns, an uncaught exception if one was thrown, and what was observed.
\<close>

record state =
  status :: "rid \<Rightarrow> status"
  listeners :: "rid \<times> evname \<Rightarrow> listener list"
  kind :: "rid \<Rightarrow> runner_class"
  nut :: "rid \<Rightarrow> plugin"
  multi :: "rid \<Rightarrow> multi_fields"
  task :: "rid \<Rightarrow> task_fields"
  next_rid :: rid
  frames :: "fid \<Rightarrow> frame"
  next_frame :: fid
  stack :: "call list"
  ticks :: "call list"
  immediates :: "call list"
  thrown :: "error option"
  trace :: "trace_event list"
  plugin_log :: "plugin_event list"
  delivered :: "(nat \<times> error option) list"
  warnings :: "warning list"
  heap :: "object list"
  factory_log :: "addr list"

section \<open>Primitives of the run time\<close>

definition nextTick :: "call \<Rightarrow> state \<Rightarrow> state" where
  "nextTick c s = s\<lparr>ticks := ticks s @ [c]\<rparr>"

definition setImmediate :: "call \<Rightarrow> state \<Rightarrow> state" where
  "setImmediate c s = s\<lparr>immediates := immediates s @ [c]\<rparr>"

definition do_call :: "call \<Rightarrow> state \<Rightarrow> state" where
  "do_call c s = s\<lparr>stack := c # stack s\<rparr>"

text \<open>
  The program has no \<^verbatim>\<open>try\<close> around its calls: an exception unwinds the whole call
  stack of the turn.
\<close>

definition throw :: "error \<Rightarrow> state \<Rightarrow> state" where
  "throw e s = s\<lparr>stack := [], thrown := Some e\<rparr>"

definition emitWarning :: "warning \<Rightarrow> state \<Rightarrow> state" where
  "emitWarning w s = s\<lparr>warnings := warnings s @ [w]\<rparr>"

definition once :: "rid \<times> evname \<Rightarrow> listener \<Rightarrow> state \<Rightarrow> state" where
  "once key l s = s\<lparr>listeners := (listeners s)(key := listeners s key @ [l])\<rparr>"

fun fire :: "listener \<Rightarrow> error option \<Rightarrow> state \<Rightarrow> state" where
  "fire (JoinL callback) err s = nextTick (Invoke callback err) s"
| "fire (ThenStart this options callback) err s = nextTick (Start this options callback) s"
| "fire (ThenStop this options callback) err s = nextTick (Stop this options callback) s"

text \<open>
  \<^verbatim>\<open>this.emit(name, err)\<close>: every listener was registered with \<^verbatim>\<open>once\<close>, so each is
  removed and called, in the order of registration.
\<close>

definition emit :: "rid \<times> evname \<Rightarrow> error option \<Rightarrow> state \<Rightarrow> state" where
  "emit key err s =
     foldl (\<lambda>s' l. fire l err s') (s\<lparr>listeners := (listeners s)(key := [])\<rparr>) (listeners s key)"

text \<open>
  The body of a plugin method with the completion signals it has still to give.
\<close>

fun signal :: "string \<Rightarrow> meth \<Rightarrow> completion list \<Rightarrow> callback \<Rightarrow> state \<Rightarrow> state" where
  "signal i m [] callback s = s"
| "signal i m ((Sync, err) # rest) callback s =
     s\<lparr>stack := Complete i m callback err #
        (if rest = [] then [] else [Signal i m rest callback]) @ stack s\<rparr>"
| "signal i m ((Tick, err) # rest) callback s =
     (let s1 = nextTick (Complete i m callback err) s
      in if rest = [] then s1 else do_call (Signal i m rest callback) s1)"
| "signal i m ((Later, err) # rest) callback s =
     (let s1 = setImmediate (Complete i m callback err) s
      in if rest = [] then s1 else do_call (Signal i m rest callback) s1)"

definition plugin_call :: "plugin \<Rightarrow> meth \<Rightarrow> completion list \<Rightarrow> callback \<Rightarrow> state \<Rightarrow> state" where
  "plugin_call p m h callback s =
     do_call (Signal (ident p) m h callback) (s\<lparr>plugin_log := plugin_log s @ [Called (ident p) m]\<rparr>)"

section \<open>lib/runner.js\<close>

subsection \<open>DecoratedRunner\<close>

definition DecoratedRunner_start :: "rid \<Rightarrow> callback \<Rightarrow> state \<Rightarrow> state" where
  "DecoratedRunner_start this callback s =
     (case start_fn (nut s this) of
        Some h \<Rightarrow> plugin_call (nut s this) MStart h callback s
      | None \<Rightarrow> nextTick (Invoke callback None) s)"

definition DecoratedRunner_stop :: "rid \<Rightarrow> callback \<Rightarrow> state \<Rightarrow> state" where
  "DecoratedRunner_stop this callback s =
     (case stop_fn (nut s this) of
        Some h \<Rightarrow> plugin_call (nut s this) MStop h callback s
      | None \<Rightarrow> nextTick (Invoke callback None) s)"

text \<open>\<^verbatim>\<open>Runner.decorate\<close>: a new \<^verbatim>\<open>DecoratedRunner\<close>, in state Stopped.\<close>

definition decorate :: "plugin \<Rightarrow> state \<Rightarrow> rid \<times> state" where
  "decorate p s =
     (next_rid s,
      s\<lparr>next_rid := Suc (next_rid s),
        kind := (kind s)(next_rid s := DecoratedRunner),
        status := (status s)(next_rid s := STOPPED),
        nut := (nut s)(next_rid s := p),
        listeners := (listeners s)((next_rid s, EvStart) := [], (next_rid s, EvStop) := [])\<rparr>)"

fun decorate_all :: "plugin list \<Rightarrow> state \<Rightarrow> rid list \<times> state" where
  "decorate_all [] s = ([], s)"
| "decorate_all (p # ps) s =
     (let (r, s1) = decorate p s; (rs, s2) = decorate_all ps s1 in (r # rs, s2))"

subsection \<open>MultiRunner\<close>

definition MultiRunner_addRunner :: "rid \<Rightarrow> rid \<Rightarrow> bool \<Rightarrow> state \<Rightarrow> state" where
  "MultiRunner_addRunner this runner stopFirst s =
     (if m_frozen (multi s this) then throw (Error ''Cannot addRunner() after start()'') s
      else s\<lparr>multi := (multi s)(this := (multi s this)
             \<lparr>startOrder := startOrder (multi s this) @ [runner],
              stopOrder := (if stopFirst then runner # stopOrder (multi s this)
                            else stopOrder (multi s this) @ [runner])\<rparr>)\<rparr>)"

definition new_frame :: "frame \<Rightarrow> state \<Rightarrow> state" where
  "new_frame fr s = s\<lparr>frames := (frames s)(next_frame s := fr), next_frame := Suc (next_frame s)\<rparr>"

definition MultiRunner_start :: "rid \<Rightarrow> callback \<Rightarrow> state \<Rightarrow> state" where
  "MultiRunner_start this callback s =
     (let s1 = s\<lparr>multi := (multi s)(this := (multi s this)\<lparr>m_frozen := True\<rparr>)\<rparr>;
          fr = \<lparr>f_self = this, f_runners = startOrder (multi s1 this), f_pos = 0,
                f_errors = [], f_callback = callback\<rparr>
      in do_call (Invoke (StartLoop (next_frame s1)) None) (new_frame fr s1))"

definition MultiRunner_cancelStart :: "rid \<Rightarrow> callback \<Rightarrow> error list \<Rightarrow> state \<Rightarrow> state" where
  "MultiRunner_cancelStart this callback errors s =
     (let fr = \<lparr>f_self = this, f_runners = stopOrder (multi s this), f_pos = 0,
                f_errors = errors, f_callback = callback\<rparr>
      in do_call (Invoke (CancelLoop (next_frame s)) None) (new_frame fr s))"

definition MultiRunner_stop :: "rid \<Rightarrow> callback \<Rightarrow> state \<Rightarrow> state" where
  "MultiRunner_stop this callback s =
     (let fr = \<lparr>f_self = this, f_runners = stopOrder (multi s this), f_pos = 0,
                f_errors = [], f_callback = callback\<rparr>
      in do_call (Invoke (StopLoop (next_frame s)) None) (new_frame fr s))"

text \<open>The \<^verbatim>\<open>loop\<close> closure of \<^verbatim>\<open>_start\<close>.\<close>

definition start_loop :: "fid \<Rightarrow> error option \<Rightarrow> state \<Rightarrow> state" where
  "start_loop f err s =
     (let fr = frames s f in
      case err of
        Some e \<Rightarrow> MultiRunner_cancelStart (f_self fr) (f_callback fr) [e] s
      | None \<Rightarrow>
          if f_pos fr \<ge> length (f_runners fr) then nextTick (Invoke (f_callback fr) None) s
          else do_call (Start (f_runners fr ! f_pos fr) None (StartLoop f))
                 (s\<lparr>frames := (frames s)(f := fr\<lparr>f_pos := Suc (f_pos fr)\<rparr>)\<rparr>))"

text \<open>The \<^verbatim>\<open>loop\<close> closure of \<^verbatim>\<open>_cancelStart\<close>.\<close>

definition cancel_loop :: "fid \<Rightarrow> error option \<Rightarrow> state \<Rightarrow> state" where
  "cancel_loop f err s =
     (let fr0 = frames s f;
          fr = (case err of Some e \<Rightarrow> fr0\<lparr>f_errors := f_errors fr0 @ [e]\<rparr> | None \<Rightarrow> fr0);
          s1 = s\<lparr>frames := (frames s)(f := fr)\<rparr>
      in if f_pos fr \<ge> length (f_runners fr)
         then nextTick (Invoke (f_callback fr) (Some (combine (f_errors fr)))) s1
         else do_call (Stop (f_runners fr ! f_pos fr) (Some (Options True)) (CancelLoop f))
                (s1\<lparr>frames := (frames s1)(f := fr\<lparr>f_pos := Suc (f_pos fr)\<rparr>)\<rparr>))"

text \<open>The \<^verbatim>\<open>loop\<close> closure of \<^verbatim>\<open>_stop\<close>.\<close>

definition stop_loop :: "fid \<Rightarrow> error option \<Rightarrow> state \<Rightarrow> state" where
  "stop_loop f err s =
     (let fr0 = frames s f;
          fr = (case err of Some e \<Rightarrow> fr0\<lparr>f_errors := f_errors fr0 @ [e]\<rparr> | None \<Rightarrow> fr0);
          s1 = s\<lparr>frames := (frames s)(f := fr)\<rparr>
      in if f_pos fr \<ge> length (f_runners fr)
         then nextTick (Invoke (f_callback fr)
                (if length (f_errors fr) > 0 then Some (combine (f_errors fr)) else None)) s1
         else do_call (Stop (f_runners fr ! f_pos fr) None (StopLoop f))
                (s1\<lparr>frames := (frames s1)(f := fr\<lparr>f_pos := Suc (f_pos fr)\<rparr>)\<rparr>))"

section \<open>lib/task.js\<close>

subsection \<open>Names of wrapped plugins\<close>

definition digit :: "nat \<Rightarrow> char" where
  "digit d = (''0123456789'' ! d)"

function show_nat :: "nat \<Rightarrow> string" where
  "show_nat n = (if n < 10 then [digit n] else show_nat (n div 10) @ [digit (n mod 10)])"
  by pat_completeness auto
termination
  by (relation "measure id") auto

fun join :: "string \<Rightarrow> string list \<Rightarrow> string" where
  "join sep [] = []"
| "join sep [x] = x"
| "join sep (x # y # ys) = x @ sep @ join sep (y # ys)"

definition fqn :: "string list \<Rightarrow> string" where
  "fqn parts = ''<'' @ join '':'' parts @ ''>''"

definition pluginName :: "plugin \<Rightarrow> string" where
  "pluginName p =
     (case proto p of
        Some n \<Rightarrow> (if n = [] then ''Anonymous'' else n)
      | None \<Rightarrow> ''Object'')"

definition wrapper :: "string \<Rightarrow> string \<Rightarrow> plugin \<Rightarrow> nat \<Rightarrow> wrapped" where
  "wrapper taskName role p index =
     \<lparr>w_plugin = p,
      w_name = fqn [taskName, role @ ''['' @ show_nat index @ '']'', pluginName p],
      w_pingable = (ping_fn p \<noteq> None)\<rparr>"

text \<open>\<^verbatim>\<open>plugins.map(wrapper(taskName, role))\<close>: \<^verbatim>\<open>map\<close> passes the index.\<close>

definition wrap_all :: "string \<Rightarrow> string \<Rightarrow> plugin list \<Rightarrow> wrapped list" where
  "wrap_all taskName role ps = map (\<lambda>(p, index). wrapper taskName role p index) (zip ps [0..<length ps])"

subsection \<open>Registration\<close>

datatype role = Collect | Process | Publish | Schedule | Use

fun method_name :: "role \<Rightarrow> string" where
  "method_name Collect = ''collect''"
| "method_name Process = ''process''"
| "method_name Publish = ''publish''"
| "method_name Schedule = ''schedule''"
| "method_name Use = ''use''"

text \<open>The \<^verbatim>\<open>add\<close> arrow functions of \<^verbatim>\<open>collect\<close>, \<^verbatim>\<open>process\<close>, \<^verbatim>\<open>publish\<close>, \<^verbatim>\<open>schedule\<close>
  and the \<^verbatim>\<open>noop\<close> of \<^verbatim>\<open>use\<close>.\<close>

fun add :: "role \<Rightarrow> plugin \<Rightarrow> task_fields \<Rightarrow> task_fields" where
  "add Collect p tk = tk\<lparr>collectors := collectors tk @ [p]\<rparr>"
| "add Process p tk = tk\<lparr>processors := processors tk @ [p]\<rparr>"
| "add Publish p tk = tk\<lparr>publishers := publishers tk @ [p]\<rparr>"
| "add Schedule p tk = tk\<lparr>schedules := schedules tk @ [p]\<rparr>"
| "add Use p tk = tk"

text \<open>
  A plugin factory is a function of the options object it is given. The model passes it
  the properties of that object and records the address, and leaves out the second
  argument (the task).
\<close>

type_synonym factory = "object \<Rightarrow> plugin"

text \<open>An element of a list of plugins: a function, or an array \<^verbatim>\<open>[plugin, options]\<close>
  (\<^verbatim>\<open>[plugin]\<close> is \<open>ElPair plugin Nullish\<close>), or anything else.\<close>

datatype element = ElFunction factory | ElPair factory optarg | ElOther

datatype plugins_arg = OneFunction factory | Array "element list" | Other

definition props :: "state \<Rightarrow> addr \<Rightarrow> object" where
  "props s a = (if a < length (heap s) then heap s ! a else Map.empty)"

text \<open>The object literal \<^verbatim>\<open>{}\<close>.\<close>

definition new_object :: "state \<Rightarrow> addr \<times> state" where
  "new_object s = (length (heap s), s\<lparr>heap := heap s @ [Map.empty]\<rparr>)"

text \<open>\<^verbatim>\<open>Object.assign(target, ...sources)\<close>: the sources are copied onto the target from
  left to right; \<^verbatim>\<open>null\<close>, \<^verbatim>\<open>undefined\<close>, numbers and booleans give nothing.\<close>

fun Object_assign :: "addr \<Rightarrow> optarg list \<Rightarrow> state \<Rightarrow> state" where
  "Object_assign target [] s = s"
| "Object_assign target (Obj a # sources) s =
     Object_assign target sources (s\<lparr>heap := (heap s)[target := props s target ++ props s a]\<rparr>)"
| "Object_assign target (_ # sources) s = Object_assign target sources s"

text \<open>\<^verbatim>\<open>lib/plugin-options.js\<close>; the result is the address of the new object, or
  \<open>None\<close> with the exception thrown.\<close>

definition pluginOptions :: "optarg \<Rightarrow> state \<Rightarrow> addr option \<times> state" where
  "pluginOptions options s =
     (case options of
        Nullish \<Rightarrow> (let (a, s1) = new_object s in (Some a, s1))
      | Obj b \<Rightarrow> (let (a, s1) = new_object s in (Some a, Object_assign a [Obj b] s1))
      | Primitive \<Rightarrow> (None, throw (TypeError ''Unexpected type for options object'') s))"

definition Task_callPlugin :: "factory \<Rightarrow> optarg \<Rightarrow> state \<Rightarrow> plugin option \<times> state" where
  "Task_callPlugin pluginFn options s =
     (case pluginOptions options s of
        (Some a, s1) \<Rightarrow> (Some (pluginFn (props s1 a)), s1\<lparr>factory_log := factory_log s1 @ [a]\<rparr>)
      | (None, s1) \<Rightarrow> (None, s1))"

definition add_plugin :: "rid \<Rightarrow> role \<Rightarrow> plugin option \<times> state \<Rightarrow> state" where
  "add_plugin this r res =
     (case res of
        (Some p, s) \<Rightarrow> s\<lparr>task := (task s)(this := add r p (task s this))\<rparr>
      | (None, s) \<Rightarrow> s)"

text \<open>One run of the body of \<^verbatim>\<open>for (const el of arg1)\<close> in \<^verbatim>\<open>_takePlugins\<close>.\<close>

fun take_element :: "rid \<Rightarrow> role \<Rightarrow> optarg \<Rightarrow> element \<Rightarrow> state \<Rightarrow> state" where
  "take_element this r arg2 (ElFunction el) s = add_plugin this r (Task_callPlugin el arg2 s)"
| "take_element this r arg2 (ElPair el0 el1) s =
     (let (a, s1) = new_object s;
          s2 = Object_assign a [el1, arg2] s1
      in add_plugin this r (Task_callPlugin el0 (Obj a) s2))"
| "take_element this r arg2 ElOther s =
     throw (TypeError (''Nested plugin in '' @ method_name r @
       ''([plugin, ..]) must be a function or an array in the form [plugin, options]'')) s"

text \<open>A \<^verbatim>\<open>for\<close> loop over a list, left by the first exception.\<close>

fun for_each :: "('a \<Rightarrow> state \<Rightarrow> state) \<Rightarrow> 'a list \<Rightarrow> state \<Rightarrow> state" where
  "for_each body [] s = s"
| "for_each body (x # xs) s =
     (let s1 = body x s in if thrown s1 \<noteq> None then s1 else for_each body xs s1)"

definition Task_takePlugins :: "rid \<Rightarrow> role \<Rightarrow> plugins_arg \<Rightarrow> optarg \<Rightarrow> state \<Rightarrow> state" where
  "Task_takePlugins this r arg1 arg2 s =
     (if t_frozen (task s this)
      then throw (Error (''Cannot '' @ method_name r @ ''() after task has been frozen'')) s
      else case arg1 of
        OneFunction pluginFn \<Rightarrow> add_plugin this r (Task_callPlugin pluginFn arg2 s)
      | Array els \<Rightarrow> for_each (take_element this r arg2) els s
      | Other \<Rightarrow> throw (TypeError (''First argument in '' @ method_name r @
          ''(arg) must be a function or an array in the form [plugin, ..]'')) s)"

subsection \<open>Start and stop\<close>

definition Task_initializePlugins :: "rid \<Rightarrow> state \<Rightarrow> state" where
  "Task_initializePlugins this s =
     (let tk = task s this;
          wrappedPlugins = wrap_all (t_name tk) ''Collector'' (collectors tk)
            @ wrap_all (t_name tk) ''Processor'' (processors tk)
            @ wrap_all (t_name tk) ''Publisher'' (publishers tk);
          (decoratedPlugins, s1) = decorate_all (map w_plugin wrappedPlugins) s;
          (decoratedSchedulePlugins, s2) = decorate_all (schedules tk) s1;
          s3 = s2\<lparr>task := (task s2)(this := (task s2 this)
                 \<lparr>pingablePlugins := filter w_pingable wrappedPlugins\<rparr>)\<rparr>;
          s4 = for_each (\<lambda>runner. MultiRunner_addRunner (multiRunner tk) runner False)
                 decoratedPlugins s3
      in if thrown s4 \<noteq> None then s4
         else for_each (\<lambda>runner. MultiRunner_addRunner (multiRunner tk) runner True)
                decoratedSchedulePlugins s4)"

text \<open>
  \<^verbatim>\<open>_connectPlugins\<close> subscribes to the \<^verbatim>\<open>metric\<close> events of the collectors and
  processors. The subscriptions are state of the plugins and are not modelled; what is kept
  is that \<^verbatim>\<open>collector.on\<close>, \<^verbatim>\<open>prev.on\<close> and \<^verbatim>\<open>lastProcessor.on\<close> must be functions.
\<close>

definition Task_connectPlugins :: "rid \<Rightarrow> state \<Rightarrow> state" where
  "Task_connectPlugins this s =
     (let tk = task s this in
      if \<not> list_all emitter (collectors tk)
      then throw (TypeError ''collector.on is not a function'') s
      else if processors tk = [] then s
      else if \<not> list_all emitter (butlast (processors tk))
      then throw (TypeError ''prev.on is not a function'') s
      else if \<not> emitter (last (processors tk))
      then throw (TypeError ''lastProcessor.on is not a function'') s
      else s)"

definition Task_initialize :: "rid \<Rightarrow> state \<Rightarrow> state" where
  "Task_initialize this s =
     (if t_frozen (task s this) then s
      else let s1 = s\<lparr>task := (task s)(this := (task s this)\<lparr>t_frozen := True\<rparr>)\<rparr>;
               s2 = Task_initializePlugins this s1
           in if thrown s2 \<noteq> None then s2 else Task_connectPlugins this s2)"

definition Task_start :: "rid \<Rightarrow> callback \<Rightarrow> state \<Rightarrow> state" where
  "Task_start this callback s =
     (let s1 = Task_initialize this s
      in if thrown s1 \<noteq> None then s1
         else do_call (Start (multiRunner (task s1 this)) None callback) s1)"

definition Task_stop :: "rid \<Rightarrow> callback \<Rightarrow> state \<Rightarrow> state" where
  "Task_stop this callback s = do_call (Stop (multiRunner (task s this)) None callback) s"

subsection \<open>Ping\<close>

definition Task_ping :: "rid \<Rightarrow> callback \<Rightarrow> state \<Rightarrow> state" where
  "Task_ping this callback s =
     (if pinging (task s this)
      then throw (Error ''Cannot ping() before completion of previous ping'') s
      else do_call (Invoke (PingNext this) None)
             (s\<lparr>task := (task s)(this := (task s this)
                  \<lparr>pinging := True, pingIndex := 0, pingCallback := Some callback\<rparr>)\<rparr>))"

definition Task_pingNext :: "rid \<Rightarrow> error option \<Rightarrow> state \<Rightarrow> state" where
  "Task_pingNext this err s =
     (let s1 = (case err of Some e \<Rightarrow> emitWarning (Warning e) s | None \<Rightarrow> s);
          tk = task s1 this
      in if \<not> pinging tk
         then emitWarning (TelemetryWarning ''Plugin called the ping callback more than once'') s1
         else if pingIndex tk = length (pingablePlugins tk)
         then (case pingCallback tk of
                 Some callback \<Rightarrow>
                   nextTick (Invoke callback None)
                     (s1\<lparr>task := (task s1)(this := tk
                          \<lparr>pinging := False, pingCallback := None,
                           currentPingTarget := noPingTarget tk\<rparr>)\<rparr>)
               | None \<Rightarrow>
                   throw (TypeError ''Callback must be a function'')
                     (s1\<lparr>task := (task s1)(this := tk
                          \<lparr>pinging := False, pingCallback := None,
                           currentPingTarget := noPingTarget tk\<rparr>)\<rparr>))
         else if pingIndex tk < length (pingablePlugins tk)
         then (let wrapped = pingablePlugins tk ! pingIndex tk;
                   s2 = s1\<lparr>task := (task s1)(this := tk
                          \<lparr>pingIndex := Suc (pingIndex tk), currentPingTarget := w_name wrapped\<rparr>)\<rparr>
               in case ping_fn (w_plugin wrapped) of
                    Some h \<Rightarrow> plugin_call (w_plugin wrapped) MPing h (PingNext this) s2
                  | None \<Rightarrow> throw (TypeError ''wrapped.plugin.ping is not a function'') s2)
         else throw (TypeError ''Cannot read property name of undefined'')
                (s1\<lparr>task := (task s1)(this := tk\<lparr>pingIndex := Suc (pingIndex tk)\<rparr>)\<rparr>))"

section \<open>AbstractRunner\<close>

text \<open>The call \<^verbatim>\<open>this._start(callback)\<close>, resolved by the class of \<^verbatim>\<open>this\<close>.\<close>

definition start_hook :: "rid \<Rightarrow> callback \<Rightarrow> state \<Rightarrow> state" where
  "start_hook this callback s =
     (case kind s this of
        DecoratedRunner \<Rightarrow> DecoratedRunner_start this callback s
      | MultiRunner \<Rightarrow> MultiRunner_start this callback s
      | Task \<Rightarrow> Task_start this callback s)"

definition stop_hook :: "rid \<Rightarrow> callback \<Rightarrow> state \<Rightarrow> state" where
  "stop_hook this callback s =
     (case kind s this of
        DecoratedRunner \<Rightarrow> DecoratedRunner_stop this callback s
      | MultiRunner \<Rightarrow> MultiRunner_stop this callback s
      | Task \<Rightarrow> Task_stop this callback s)"

definition AbstractRunner_start :: "rid \<Rightarrow> run_options option \<Rightarrow> callback \<Rightarrow> state \<Rightarrow> state" where
  "AbstractRunner_start this options callback s =
     (if graceful options \<and> status s this = STARTED
      then nextTick (Invoke callback None) s
      else if graceful options \<and> status s this = STARTING
      then once (this, EvStart) (JoinL callback) s
      else if graceful options \<and> status s this = STOPPING
      then once (this, EvStop) (ThenStart this options callback) s
      else if status s this = STARTED \<or> status s this = STARTING
      then throw (Error ''Cannot start() before stop()'') s
      else if status s this = STOPPING
      then throw (Error ''Cannot start() before stop() has completed'') s
      else start_hook this (StartDone this callback)
             (s\<lparr>status := (status s)(this := STARTING),
                trace := trace s @ [Hook this MStart (graceful options)]\<rparr>))"

definition AbstractRunner_stop :: "rid \<Rightarrow> run_options option \<Rightarrow> callback \<Rightarrow> state \<Rightarrow> state" where
  "AbstractRunner_stop this options callback s =
     (if graceful options \<and> status s this = STOPPED
      then nextTick (Invoke callback None) s
      else if graceful options \<and> status s this = STOPPING
      then once (this, EvStop) (JoinL callback) s
      else if graceful options \<and> status s this = STARTING
      then once (this, EvStart) (ThenStop this options callback) s
      else if status s this = STOPPED \<or> status s this = STOPPING
      then throw (Error ''Cannot stop() before start()'') s
      else if status s this = STARTING
      then throw (Error ''Cannot stop() before start() has completed'') s
      else stop_hook this (StopDone this callback)
             (s\<lparr>status := (status s)(this := STOPPING),
                trace := trace s @ [Hook this MStop (graceful options)]\<rparr>))"

text \<open>The arrow functions handed to \<^verbatim>\<open>this._start\<close> and \<^verbatim>\<open>this._stop\<close>.\<close>

definition start_done :: "rid \<Rightarrow> callback \<Rightarrow> error option \<Rightarrow> state \<Rightarrow> state" where
  "start_done this callback err s =
     do_call (Invoke callback err)
       (emit (this, EvStart) err
          (s\<lparr>status := (status s)(this := (if err \<noteq> None then STOPPED else STARTED)),
             trace := trace s @ [HookDone this MStart err]\<rparr>))"

definition stop_done :: "rid \<Rightarrow> callback \<Rightarrow> error option \<Rightarrow> state \<Rightarrow> state" where
  "stop_done this callback err s =
     do_call (Invoke callback err)
       (emit (this, EvStop) err
          (s\<lparr>status := (status s)(this := STOPPED),
             trace := trace s @ [HookDone this MStop err]\<rparr>))"

section \<open>The event loop\<close>

fun exec :: "call \<Rightarrow> state \<Rightarrow> state" where
  "exec (Start this options callback) s = AbstractRunner_start this options callback s"
| "exec (Stop this options callback) s = AbstractRunner_stop this options callback s"
| "exec (Signal i m h callback) s = signal i m h callback s"
| "exec (Complete i m callback err) s =
     do_call (Invoke callback err) (s\<lparr>plugin_log := plugin_log s @ [Done i m err]\<rparr>)"
| "exec (Invoke (Caller u) err) s = s\<lparr>delivered := delivered s @ [(u, err)]\<rparr>"
| "exec (Invoke (StartDone this callback) err) s = start_done this callback err s"
| "exec (Invoke (StopDone this callback) err) s = stop_done this callback err s"
| "exec (Invoke (StartLoop f) err) s = start_loop f err s"
| "exec (Invoke (CancelLoop f) err) s = cancel_loop f err s"
| "exec (Invoke (StopLoop f) err) s = stop_loop f err s"
| "exec (Invoke (PingNext this) err) s = Task_pingNext this err s"

text \<open>
  One step of the process: the call on top of the stack runs; with an empty stack the
  next \<^verbatim>\<open>nextTick\<close> callback starts a stack, and with no such callback the next later
  turn does. After an uncaught exception, and when nothing is pending, nothing happens.
\<close>

definition step :: "state \<Rightarrow> state" where
  "step s =
     (if thrown s \<noteq> None then s
      else case stack s of
        c # cs \<Rightarrow> exec c (s\<lparr>stack := cs\<rparr>)
      | [] \<Rightarrow>
         (case ticks s of
            t # ts \<Rightarrow> s\<lparr>stack := [t], ticks := ts\<rparr>
          | [] \<Rightarrow>
             (case immediates s of
                i # is \<Rightarrow> s\<lparr>stack := [i], immediates := is\<rparr>
              | [] \<Rightarrow> s)))"

fun steps :: "nat \<Rightarrow> state \<Rightarrow> state" where
  "steps 0 s = s"
| "steps (Suc n) s = steps n (step s)"

definition idle :: "state \<Rightarrow> bool" where
  "idle s = (stack s = [] \<and> ticks s = [] \<and> immediates s = [])"

definition reaches :: "state \<Rightarrow> state \<Rightarrow> bool" where
  "reaches s s' = (\<exists>n. steps n s = s')"

section \<open>Constructors and a first state\<close>

text \<open>A process in which no object has been created yet.\<close>

definition no_plugin :: plugin where
  "no_plugin = \<lparr>ident = [], proto = None, emitter = False,
                 start_fn = None, stop_fn = None, ping_fn = None\<rparr>"

definition boot :: state where
  "boot = \<lparr>status = (\<lambda>r. STOPPED), listeners = (\<lambda>k. []), kind = (\<lambda>r. DecoratedRunner),
     nut = (\<lambda>r. no_plugin),
     multi = (\<lambda>r. \<lparr>startOrder = [], stopOrder = [], m_frozen = False\<rparr>),
     task = (\<lambda>r. \<lparr>collectors = [], processors = [], publishers = [], schedules = [],
                  pingablePlugins = [], t_frozen = False, pinging = False, multiRunner = 0,
                  t_name = [], pingIndex = 0, pingCallback = None, noPingTarget = [],
                  currentPingTarget = []\<rparr>),
     next_rid = 0,
     frames = (\<lambda>f. \<lparr>f_self = 0, f_runners = [], f_pos = 0, f_errors = [], f_callback = Caller 0\<rparr>),
     next_frame = 0, stack = [], ticks = [], immediates = [], thrown = None, trace = [],
     plugin_log = [], delivered = [], warnings = [], heap = [], factory_log = []\<rparr>"

text \<open>The constructor of \<^verbatim>\<open>AbstractRunner\<close>, for an object of class \<open>c\<close>.\<close>

definition new_runner :: "runner_class \<Rightarrow> state \<Rightarrow> rid \<times> state" where
  "new_runner c s =
     (next_rid s,
      s\<lparr>next_rid := Suc (next_rid s),
        kind := (kind s)(next_rid s := c),
        status := (status s)(next_rid s := STOPPED),
        listeners := (listeners s)((next_rid s, EvStart) := [], (next_rid s, EvStop) := [])\<rparr>)"

text \<open>\<^verbatim>\<open>new MultiRunner()\<close>.\<close>

definition new_MultiRunner :: "state \<Rightarrow> rid \<times> state" where
  "new_MultiRunner s =
     (let (this, s1) = new_runner MultiRunner s
      in (this, s1\<lparr>multi := (multi s1)(this := \<lparr>startOrder = [], stopOrder = [], m_frozen = False\<rparr>)\<rparr>))"

text \<open>\<^verbatim>\<open>new Task(name)\<close>; the empty name stands for a missing one.\<close>

definition new_Task :: "string \<Rightarrow> state \<Rightarrow> rid \<times> state" where
  "new_Task name s =
     (let (this, s1) = new_runner Task s;
          (m, s2) = new_MultiRunner s1;
          nm = ''Task('' @ (if name = [] then ''anonymous'' else name) @ '')''
      in (this, s2\<lparr>task := (task s2)(this :=
            \<lparr>collectors = [], processors = [], publishers = [], schedules = [],
             pingablePlugins = [], t_frozen = False, pinging = False, multiRunner = m,
             t_name = nm, pingIndex = 0, pingCallback = None, noPingTarget = fqn [nm, ''None''],
             currentPingTarget = fqn [nm, ''None'']\<rparr>)\<rparr>))"

section \<open>Vocabulary of the properties\<close>

text \<open>
  A method that signals completion exactly once (an absent method is replaced by the
  runner's own \<^verbatim>\<open>process.nextTick(callback)\<close>, which does), the error it passes, and what
  calling it adds to the record of plugin calls.
\<close>

definition single :: "completion list option \<Rightarrow> bool" where
  "single h = (case h of None \<Rightarrow> True | Some cs \<Rightarrow> length cs = 1)"

definition outcome :: "completion list option \<Rightarrow> error option" where
  "outcome h = (case h of Some ((t, e) # rest) \<Rightarrow> e | _ \<Rightarrow> None)"

definition plugin_events :: "plugin \<Rightarrow> meth \<Rightarrow> completion list option \<Rightarrow> plugin_event list" where
  "plugin_events p m h =
     (case h of None \<Rightarrow> [] | Some cs \<Rightarrow> Called (ident p) m # map (\<lambda>(t, e). Done (ident p) m e) cs)"

definition opt :: "'a option \<Rightarrow> 'a list" where
  "opt x = (case x of None \<Rightarrow> [] | Some v \<Rightarrow> [v])"

fun method_fn :: "meth \<Rightarrow> plugin \<Rightarrow> completion list option" where
  "method_fn MStart p = start_fn p"
| "method_fn MStop p = stop_fn p"
| "method_fn MPing p = ping_fn p"

definition hook_trace :: "meth \<Rightarrow> bool \<Rightarrow> (rid \<Rightarrow> plugin) \<Rightarrow> rid list \<Rightarrow> trace_event list" where
  "hook_trace m g nt cs =
     concat (map (\<lambda>c. [Hook c m g, HookDone c m (outcome (method_fn m (nt c)))]) cs)"

definition call_log :: "meth \<Rightarrow> (rid \<Rightarrow> plugin) \<Rightarrow> rid list \<Rightarrow> plugin_event list" where
  "call_log m nt cs = concat (map (\<lambda>c. plugin_events (nt c) m (method_fn m (nt c))) cs)"

definition errors_of :: "meth \<Rightarrow> (rid \<Rightarrow> plugin) \<Rightarrow> rid list \<Rightarrow> error list" where
  "errors_of m nt cs = concat (map (\<lambda>c. opt (outcome (method_fn m (nt c)))) cs)"

definition started_of :: "(rid \<Rightarrow> status) \<Rightarrow> rid list \<Rightarrow> rid list" where
  "started_of st cs = filter (\<lambda>c. st c = STARTED) cs"


definition aggregate :: "error list \<Rightarrow> error option" where
  "aggregate errors = (if errors = [] then None else Some (combine errors))"

section \<open>States used as examples\<close>

definition plugin_a :: plugin where
  "plugin_a = \<lparr>ident = ''a'', proto = Some ''Test'', emitter = True,
     start_fn = Some [(Later, None)], stop_fn = Some [(Later, Some (Error ''stop failed''))],
     ping_fn = Some [(Sync, None)]\<rparr>"

definition plugin_b :: plugin where
  "plugin_b = \<lparr>ident = ''b'', proto = Some ''Test'', emitter = True,
     start_fn = Some [(Sync, Some (Error ''nope''))], stop_fn = Some [(Later, None)],
     ping_fn = None\<rparr>"

definition plugin_c :: plugin where
  "plugin_c = \<lparr>ident = ''c'', proto = Some ''Test'', emitter = True,
     start_fn = Some [(Later, None)], stop_fn = None, ping_fn = Some [(Later, None)]\<rparr>"

text \<open>A composite runner 0 with the children 1, 2, 3 (plugins a, b, c), of which 3 was
  added with \<^verbatim>\<open>stopFirst\<close>; nothing is started.\<close>

definition three_stopped :: state where
  "three_stopped = boot\<lparr>
     kind := (\<lambda>r. if r = 0 then MultiRunner else DecoratedRunner),
     nut := (\<lambda>r. if r = 1 then plugin_a else if r = 2 then plugin_b else plugin_c),
     multi := (\<lambda>r. \<lparr>startOrder = [1, 2, 3], stopOrder = [3, 1, 2], m_frozen = False\<rparr>),
     next_rid := 4\<rparr>"

text \<open>A composite runner 0 with the children 1 and 2 (plugins a and c), all started.\<close>

definition two_started :: state where
  "two_started = boot\<lparr>
     status := (\<lambda>r. STARTED),
     kind := (\<lambda>r. if r = 0 then MultiRunner else DecoratedRunner),
     nut := (\<lambda>r. if r = 1 then plugin_a else plugin_c),
     multi := (\<lambda>r. \<lparr>startOrder = [1, 2], stopOrder = [1, 2], m_frozen = True\<rparr>),
     next_rid := 3\<rparr>"

section \<open>Running the event loop\<close>

lemma hook_trace_simps [simp]:
  "hook_trace m g nt [] = []"
  "hook_trace m g nt (c # cs) = Hook c m g # HookDone c m (outcome (method_fn m (nt c))) # hook_trace m g nt cs"
  by (simp_all add: hook_trace_def)

lemma call_log_simps [simp]:
  "call_log m nt [] = []"
  "call_log m nt (c # cs) = plugin_events (nt c) m (method_fn m (nt c)) @ call_log m nt cs"
  by (simp_all add: call_log_def)

lemma errors_of_simps [simp]:
  "errors_of m nt [] = []"
  "errors_of m nt (c # cs) = opt (outcome (method_fn m (nt c))) @ errors_of m nt cs"
  by (simp_all add: errors_of_def)

lemma started_of_simps [simp]:
  "started_of st [] = []"
  "started_of st (c # cs) = (if st c = STARTED then c # started_of st cs else started_of st cs)"
  by (simp_all add: started_of_def)

lemma started_of_upd [simp]: "c \<notin> set cs \<Longrightarrow> started_of (st(c := v)) cs = started_of st cs"
  by (induction cs) auto

lemma reaches_refl: "reaches s s"
  unfolding reaches_def by (rule exI [of _ 0]) simp

lemma reaches_eq: "s = t \<Longrightarrow> reaches s t"
  by (simp add: reaches_refl)

lemma reaches_step: "reaches (step s) t \<Longrightarrow> reaches s t"
  unfolding reaches_def
proof -
  assume "\<exists>n. steps n (step s) = t"
  then obtain n where "steps n (step s) = t" ..
  then have "steps (Suc n) s = t" by simp
  then show "\<exists>n. steps n s = t" ..
qed

lemma steps_add: "steps (m + n) s = steps n (steps m s)"
  by (induction m arbitrary: s) simp_all

lemma reaches_trans: "reaches s t \<Longrightarrow> reaches t u \<Longrightarrow> reaches s u"
  unfolding reaches_def by (metis steps_add)

lemma emit_nil: "listeners s key = [] \<Longrightarrow> emit key err s = s"
  by (simp add: emit_def) (metis fun_upd_triv state.surjective state.update_convs(2))

lemmas run_defs = step_def AbstractRunner_start_def AbstractRunner_stop_def start_hook_def stop_hook_def
  DecoratedRunner_start_def DecoratedRunner_stop_def plugin_call_def do_call_def nextTick_def
  setImmediate_def start_done_def stop_done_def emit_nil

lemma decorated_start:
  assumes "kind s c = DecoratedRunner" "status s c = STOPPED" "listeners s (c, EvStart) = []"
    "single (start_fn (nut s c))" "thrown s = None" "stack s = [Start c options cb]"
    "ticks s = []" "immediates s = []"
  shows "reaches s (s\<lparr>stack := [Invoke cb (outcome (start_fn (nut s c)))],
           status := (status s)(c := if outcome (start_fn (nut s c)) = None then STARTED else STOPPED),
           trace := trace s @ [Hook c MStart (graceful options),
                               HookDone c MStart (outcome (start_fn (nut s c)))],
           plugin_log := plugin_log s @ plugin_events (nut s c) MStart (start_fn (nut s c))\<rparr>)"
proof (cases "start_fn (nut s c)")
  case None
  show ?thesis
    apply (rule reaches_step)
    apply (rule reaches_step)
    apply (rule reaches_step)
    apply (rule reaches_eq)
    using assms None
    apply (simp add: run_defs outcome_def plugin_events_def)
    done
next
  case (Some h)
  with assms(4) obtain t e where h: "h = [(t, e)]"
    by (cases h) (auto simp: single_def)
  show ?thesis
  proof (cases t)
    case Sync
    show ?thesis
      apply (rule reaches_step)
      apply (rule reaches_step)
      apply (rule reaches_step)
      apply (rule reaches_step)
      apply (rule reaches_eq)
      using assms Some h Sync
      apply (simp add: run_defs outcome_def plugin_events_def)
      done
  next
    case Tick
    show ?thesis
      apply (rule reaches_step)
      apply (rule reaches_step)
      apply (rule reaches_step)
      apply (rule reaches_step)
      apply (rule reaches_step)
      apply (rule reaches_eq)
      using assms Some h Tick
      apply (simp add: run_defs outcome_def plugin_events_def)
      done
  next
    case Later
    show ?thesis
      apply (rule reaches_step)
      apply (rule reaches_step)
      apply (rule reaches_step)
      apply (rule reaches_step)
      apply (rule reaches_step)
      apply (rule reaches_eq)
      using assms Some h Later
      apply (simp add: run_defs outcome_def plugin_events_def)
      done
  qed
qed

lemma decorated_stop:
  assumes "kind s c = DecoratedRunner" "status s c = STARTED" "listeners s (c, EvStop) = []"
    "single (stop_fn (nut s c))" "thrown s = None" "stack s = [Stop c options cb]"
    "ticks s = []" "immediates s = []"
  shows "reaches s (s\<lparr>stack := [Invoke cb (outcome (stop_fn (nut s c)))],
           status := (status s)(c := STOPPED),
           trace := trace s @ [Hook c MStop (graceful options),
                               HookDone c MStop (outcome (stop_fn (nut s c)))],
           plugin_log := plugin_log s @ plugin_events (nut s c) MStop (stop_fn (nut s c))\<rparr>)"
proof (cases "stop_fn (nut s c)")
  case None
  show ?thesis
    apply (rule reaches_step)
    apply (rule reaches_step)
    apply (rule reaches_step)
    apply (rule reaches_eq)
    using assms None
    apply (simp add: run_defs outcome_def plugin_events_def)
    done
next
  case (Some h)
  with assms(4) obtain t e where h: "h = [(t, e)]"
    by (cases h) (auto simp: single_def)
  show ?thesis
  proof (cases t)
    case Sync
    show ?thesis
      apply (rule reaches_step)
      apply (rule reaches_step)
      apply (rule reaches_step)
      apply (rule reaches_step)
      apply (rule reaches_eq)
      using assms Some h Sync
      apply (simp add: run_defs outcome_def plugin_events_def)
      done
  next
    case Tick
    show ?thesis
      apply (rule reaches_step)
      apply (rule reaches_step)
      apply (rule reaches_step)
      apply (rule reaches_step)
      apply (rule reaches_step)
      apply (rule reaches_eq)
      using assms Some h Tick
      apply (simp add: run_defs outcome_def plugin_events_def)
      done
  next
    case Later
    show ?thesis
      apply (rule reaches_step)
      apply (rule reaches_step)
      apply (rule reaches_step)
      apply (rule reaches_step)
      apply (rule reaches_step)
      apply (rule reaches_eq)
      using assms Some h Later
      apply (simp add: run_defs outcome_def plugin_events_def)
      done
  qed
qed

lemma grace_stop_stopped:
  assumes "status s c = STOPPED" "graceful options" "thrown s = None"
    "stack s = [Stop c options cb]" "ticks s = []"
  shows "reaches s (s\<lparr>stack := [Invoke cb None]\<rparr>)"
  apply (rule reaches_step)
  apply (rule reaches_step)
  apply (rule reaches_eq)
  using assms
  apply (simp add: run_defs)
  done

lemma frame_pos_same: "f_pos fr = p \<Longrightarrow> fr\<lparr>f_pos := p\<rparr> = fr"
  by (cases fr) simp

lemma start_loop_prefix:
  assumes "f_runners (frames s f) = pre @ cs @ post" "f_pos (frames s f) = length pre"
    "distinct cs"
    "\<forall>c\<in>set cs. kind s c = DecoratedRunner \<and> status s c = STOPPED
        \<and> listeners s (c, EvStart) = [] \<and> single (start_fn (nut s c))
        \<and> outcome (start_fn (nut s c)) = None"
    "thrown s = None" "stack s = [Invoke (StartLoop f) None]" "ticks s = []" "immediates s = []"
  shows "reaches s (s\<lparr>frames := (frames s)(f := (frames s f)\<lparr>f_pos := length pre + length cs\<rparr>),
           status := (\<lambda>r. if r \<in> set cs then STARTED else status s r),
           trace := trace s @ hook_trace MStart False (nut s) cs,
           plugin_log := plugin_log s @ call_log MStart (nut s) cs\<rparr>)"
  using assms
proof (induction cs arbitrary: s pre)
  case Nil
  show ?case
    by (rule reaches_eq) (use Nil in \<open>simp add: frame_pos_same\<close>)
next
  case (Cons c cs)
  let ?s1 = "s\<lparr>stack := [Start c None (StartLoop f)],
                frames := (frames s)(f := (frames s f)\<lparr>f_pos := Suc (length pre)\<rparr>)\<rparr>"
  let ?s2 = "?s1\<lparr>stack := [Invoke (StartLoop f) None],
           status := (status s)(c := STARTED),
           trace := trace s @ [Hook c MStart False, HookDone c MStart None],
           plugin_log := plugin_log s @ plugin_events (nut s c) MStart (start_fn (nut s c))\<rparr>"
  have 1: "step s = ?s1"
    using Cons.prems by (simp add: step_def start_loop_def do_call_def nth_append)
  have 2: "reaches ?s1 ?s2"
    using decorated_start [of ?s1 c None "StartLoop f"] Cons.prems by (simp add: graceful_def)
  have 3: "reaches ?s2 (?s2\<lparr>frames := (frames ?s2)(f := (frames ?s2 f)\<lparr>f_pos := length (pre @ [c]) + length cs\<rparr>),
           status := (\<lambda>r. if r \<in> set cs then STARTED else status ?s2 r),
           trace := trace ?s2 @ hook_trace MStart False (nut ?s2) cs,
           plugin_log := plugin_log ?s2 @ call_log MStart (nut ?s2) cs\<rparr>)"
    by (rule Cons.IH) (use Cons.prems in \<open>auto\<close>)
  show ?case
    apply (rule reaches_step)
    apply (simp only: 1)
    apply (rule reaches_trans [OF 2])
    apply (rule reaches_trans [OF 3])
    apply (rule reaches_eq)
    using Cons.prems
    apply (simp add: fun_eq_iff)
    done
qed

lemma cancel_loop_run:
  assumes "f_runners (frames s f) = pre @ cs" "f_pos (frames s f) = length pre"
    "distinct cs"
    "\<forall>c\<in>set cs. status s c = STOPPED \<or> (status s c = STARTED \<and> kind s c = DecoratedRunner
        \<and> listeners s (c, EvStop) = [] \<and> single (stop_fn (nut s c)))"
    "thrown s = None" "stack s = [Invoke (CancelLoop f) err]" "ticks s = []" "immediates s = []"
  shows "reaches s (s\<lparr>stack := [],
           ticks := [Invoke (f_callback (frames s f)) (Some (combine (f_errors (frames s f) @ opt err
              @ errors_of MStop (nut s) (started_of (status s) cs))))],
           frames := (frames s)(f := (frames s f)\<lparr>f_pos := length pre + length cs,
              f_errors := f_errors (frames s f) @ opt err
                @ errors_of MStop (nut s) (started_of (status s) cs)\<rparr>),
           status := (\<lambda>r. if r \<in> set cs then STOPPED else status s r),
           trace := trace s @ hook_trace MStop True (nut s) (started_of (status s) cs),
           plugin_log := plugin_log s @ call_log MStop (nut s) (started_of (status s) cs)\<rparr>)"
  using assms
proof (induction cs arbitrary: s pre err)
  case Nil
  show ?case
    apply (rule reaches_step)
    apply (rule reaches_eq)
    using Nil.prems(1,3-) Nil.prems(2) [symmetric]
    apply (cases err)
     apply (simp_all add: step_def cancel_loop_def nextTick_def opt_def Let_def fun_eq_iff)
    done
next
  case (Cons c cs)
  let ?fr = "(frames s f)\<lparr>f_errors := f_errors (frames s f) @ opt err, f_pos := Suc (length pre)\<rparr>"
  let ?s1 = "s\<lparr>stack := [Stop c (Some (Options True)) (CancelLoop f)],
                frames := (frames s)(f := ?fr)\<rparr>"
  have 1: "step s = ?s1"
    using Cons.prems by (cases err) (simp_all add: step_def cancel_loop_def do_call_def nth_append opt_def Let_def)
  let ?e = "if status s c = STARTED then outcome (stop_fn (nut s c)) else None"
  let ?s2 = "?s1\<lparr>stack := [Invoke (CancelLoop f) ?e],
           status := (status s)(c := STOPPED),
           trace := trace s @ hook_trace MStop True (nut s) (started_of (status s) [c]),
           plugin_log := plugin_log s @ call_log MStop (nut s) (started_of (status s) [c])\<rparr>"
  have 2: "reaches ?s1 ?s2"
  proof (cases "status s c = STARTED")
    case True
    then show ?thesis
      using decorated_stop [of ?s1 c "Some (Options True)" "CancelLoop f"] Cons.prems
      by (simp add: graceful_def)
  next
    case False
    with Cons.prems have st: "status s c = STOPPED" by auto
    have "?s2 = ?s1\<lparr>stack := [Invoke (CancelLoop f) None]\<rparr>"
      using st by (simp add: fun_upd_idem)
    then show ?thesis
      using grace_stop_stopped [of ?s1 c "Some (Options True)" "CancelLoop f"] Cons.prems st
      by (simp add: graceful_def)
  qed
  have 3: "reaches ?s2 (?s2\<lparr>stack := [],
           ticks := [Invoke (f_callback (frames ?s2 f)) (Some (combine (f_errors (frames ?s2 f) @ opt ?e
              @ errors_of MStop (nut ?s2) (started_of (status ?s2) cs))))],
           frames := (frames ?s2)(f := (frames ?s2 f)\<lparr>f_pos := length (pre @ [c]) + length cs,
              f_errors := f_errors (frames ?s2 f) @ opt ?e
                @ errors_of MStop (nut ?s2) (started_of (status ?s2) cs)\<rparr>),
           status := (\<lambda>r. if r \<in> set cs then STOPPED else status ?s2 r),
           trace := trace ?s2 @ hook_trace MStop True (nut ?s2) (started_of (status ?s2) cs),
           plugin_log := plugin_log ?s2 @ call_log MStop (nut ?s2) (started_of (status ?s2) cs)\<rparr>)"
    by (rule Cons.IH) (use Cons.prems in \<open>auto\<close>)
  have notin: "c \<notin> set cs"
    using Cons.prems(3) by auto
  show ?case
    apply (rule reaches_step)
    apply (simp only: 1)
    apply (rule reaches_trans [OF 2])
    apply (rule reaches_trans [OF 3])
    apply (rule reaches_eq)
    using notin
    apply (simp add: fun_eq_iff opt_def)
    done
qed

lemma stop_loop_run:
  assumes "f_runners (frames s f) = pre @ cs" "f_pos (frames s f) = length pre"
    "distinct cs"
    "\<forall>c\<in>set cs. kind s c = DecoratedRunner \<and> status s c = STARTED
        \<and> listeners s (c, EvStop) = [] \<and> single (stop_fn (nut s c))"
    "thrown s = None" "stack s = [Invoke (StopLoop f) err]" "ticks s = []" "immediates s = []"
  shows "reaches s (s\<lparr>stack := [],
           ticks := [Invoke (f_callback (frames s f))
              (if f_errors (frames s f) @ opt err @ errors_of MStop (nut s) cs = [] then None
               else Some (combine (f_errors (frames s f) @ opt err @ errors_of MStop (nut s) cs)))],
           frames := (frames s)(f := (frames s f)\<lparr>f_pos := length pre + length cs,
              f_errors := f_errors (frames s f) @ opt err @ errors_of MStop (nut s) cs\<rparr>),
           status := (\<lambda>r. if r \<in> set cs then STOPPED else status s r),
           trace := trace s @ hook_trace MStop False (nut s) cs,
           plugin_log := plugin_log s @ call_log MStop (nut s) cs\<rparr>)"
  using assms
proof (induction cs arbitrary: s pre err)
  case Nil
  show ?case
    apply (rule reaches_step)
    apply (rule reaches_eq)
    using Nil.prems(1,3-) Nil.prems(2) [symmetric]
    apply (cases err)
     apply (simp_all add: step_def stop_loop_def nextTick_def opt_def Let_def fun_eq_iff)
    done
next
  case (Cons c cs)
  let ?fr = "(frames s f)\<lparr>f_errors := f_errors (frames s f) @ opt err, f_pos := Suc (length pre)\<rparr>"
  let ?s1 = "s\<lparr>stack := [Stop c None (StopLoop f)], frames := (frames s)(f := ?fr)\<rparr>"
  have 1: "step s = ?s1"
    using Cons.prems by (cases err) (simp_all add: step_def stop_loop_def do_call_def nth_append opt_def Let_def)
  let ?s2 = "?s1\<lparr>stack := [Invoke (StopLoop f) (outcome (stop_fn (nut s c)))],
           status := (status s)(c := STOPPED),
           trace := trace s @ hook_trace MStop False (nut s) [c],
           plugin_log := plugin_log s @ call_log MStop (nut s) [c]\<rparr>"
  have 2: "reaches ?s1 ?s2"
    using decorated_stop [of ?s1 c None "StopLoop f"] Cons.prems
    by (simp add: graceful_def)
  have 3: "reaches ?s2 (?s2\<lparr>stack := [],
           ticks := [Invoke (f_callback (frames ?s2 f))
              (if f_errors (frames ?s2 f) @ opt (outcome (stop_fn (nut s c))) @ errors_of MStop (nut ?s2) cs = [] then None
               else Some (combine (f_errors (frames ?s2 f) @ opt (outcome (stop_fn (nut s c))) @ errors_of MStop (nut ?s2) cs)))],
           frames := (frames ?s2)(f := (frames ?s2 f)\<lparr>f_pos := length (pre @ [c]) + length cs,
              f_errors := f_errors (frames ?s2 f) @ opt (outcome (stop_fn (nut s c))) @ errors_of MStop (nut ?s2) cs\<rparr>),
           status := (\<lambda>r. if r \<in> set cs then STOPPED else status ?s2 r),
           trace := trace ?s2 @ hook_trace MStop False (nut ?s2) cs,
           plugin_log := plugin_log ?s2 @ call_log MStop (nut ?s2) cs\<rparr>)"
    by (rule Cons.IH) (use Cons.prems in \<open>auto\<close>)
  show ?case
    apply (rule reaches_step)
    apply (simp only: 1)
    apply (rule reaches_trans [OF 2])
    apply (rule reaches_trans [OF 3])
    apply (rule reaches_eq)
    apply (simp add: fun_eq_iff opt_def)
    done
qed


lemma started_of_filter:
  "\<forall>c\<in>set cs. (st c = STARTED) = P c \<Longrightarrow> started_of st cs = filter P cs"
  unfolding started_of_def by (rule filter_cong) auto

lemma hook_trace_append [simp]:
  "hook_trace m g nt (xs @ ys) = hook_trace m g nt xs @ hook_trace m g nt ys"
  by (simp add: hook_trace_def)

lemma call_log_append [simp]:
  "call_log m nt (xs @ ys) = call_log m nt xs @ call_log m nt ys"
  by (simp add: call_log_def)

lemma start_loop_fail:
  assumes "f_runners (frames s f) = cs" "f_pos (frames s f) = 0" "k < length cs"
    "distinct cs"
    "\<forall>c\<in>set (take (Suc k) cs). kind s c = DecoratedRunner \<and> status s c = STOPPED
        \<and> listeners s (c, EvStart) = [] \<and> single (start_fn (nut s c))"
    "\<forall>c\<in>set (take k cs). outcome (start_fn (nut s c)) = None"
    "outcome (start_fn (nut s (cs ! k))) = Some e"
    "thrown s = None" "stack s = [Invoke (StartLoop f) None]" "ticks s = []" "immediates s = []"
  shows "reaches s (s\<lparr>stack := [Invoke (StartLoop f) (Some e)],
           frames := (frames s)(f := (frames s f)\<lparr>f_pos := Suc k\<rparr>),
           status := (\<lambda>r. if r \<in> set (take k cs) then STARTED else status s r),
           trace := trace s @ hook_trace MStart False (nut s) (take (Suc k) cs),
           plugin_log := plugin_log s @ call_log MStart (nut s) (take (Suc k) cs)\<rparr>)"
proof -
  have cs: "cs = take k cs @ (cs ! k) # drop (Suc k) cs"
    using assms(3) by (simp add: id_take_nth_drop)
  have tk: "take (Suc k) cs = take k cs @ [cs ! k]"
    using assms(3) by (simp add: take_Suc_conv_app_nth)
  have notin: "cs ! k \<notin> set (take k cs)"
    using assms(3,4) cs by (metis distinct_append distinct.simps(2) disjoint_iff list.set_intros(1))
  let ?s2 = "s\<lparr>frames := (frames s)(f := (frames s f)\<lparr>f_pos := k\<rparr>),
           status := (\<lambda>r. if r \<in> set (take k cs) then STARTED else status s r),
           trace := trace s @ hook_trace MStart False (nut s) (take k cs),
           plugin_log := plugin_log s @ call_log MStart (nut s) (take k cs)\<rparr>"
  have prem: "\<forall>c\<in>set (take k cs). kind s c = DecoratedRunner \<and> status s c = STOPPED
        \<and> listeners s (c, EvStart) = [] \<and> single (start_fn (nut s c))
        \<and> outcome (start_fn (nut s c)) = None"
    using assms(5,6) tk by auto
  have 1: "reaches s ?s2"
    using start_loop_prefix [of s f "[]" "take k cs" "drop k cs", OF _ _ _ prem] assms
    by (simp add: min_def)
  let ?c = "cs ! k"
  let ?s3 = "?s2\<lparr>stack := [Start ?c None (StartLoop f)],
                frames := (frames s)(f := (frames s f)\<lparr>f_pos := Suc k\<rparr>)\<rparr>"
  have 2: "step ?s2 = ?s3"
    using assms by (simp add: step_def start_loop_def do_call_def)
  have kc: "kind s ?c = DecoratedRunner \<and> status s ?c = STOPPED
        \<and> listeners s (?c, EvStart) = [] \<and> single (start_fn (nut s ?c))"
    using assms(5) tk by simp
  have 3: "reaches ?s3 (?s3\<lparr>stack := [Invoke (StartLoop f) (Some e)],
           status := (status ?s3)(?c := STOPPED),
           trace := trace ?s3 @ [Hook ?c MStart False, HookDone ?c MStart (Some e)],
           plugin_log := plugin_log ?s3 @ plugin_events (nut s ?c) MStart (start_fn (nut s ?c))\<rparr>)"
    using decorated_start [of ?s3 ?c None "StartLoop f"] assms kc notin
    by (simp add: graceful_def)
  show ?thesis
    apply (rule reaches_trans [OF 1])
    apply (rule reaches_step)
    apply (simp only: 2)
    apply (rule reaches_trans [OF 3])
    apply (rule reaches_eq)
    using assms kc notin
    apply (simp add: fun_eq_iff tk)
    done
qed

section \<open>Lifecycle guards\<close>

text \<open>
  C3. Without grace, \<^verbatim>\<open>start\<close> throws in the states Started and Starting with one
  message and in the state Stopping with another; \<^verbatim>\<open>stop\<close> throws in the states Stopped
  and Stopping with one message and in the state Starting with another. The exception is
  thrown by the call itself, and the state after it differs from the state before it only
  in the unwound call stack and the exception: the status, the listeners, the queues and
  the record of hook invocations are as before.
\<close>

theorem C3_guards:
  assumes "\<not> graceful options"
  shows "(status s this = STARTED \<or> status s this = STARTING \<longrightarrow>
           exec (Start this options callback) s
             = s\<lparr>stack := [], thrown := Some (Error ''Cannot start() before stop()'')\<rparr>)
       \<and> (status s this = STOPPING \<longrightarrow>
           exec (Start this options callback) s
             = s\<lparr>stack := [], thrown := Some (Error ''Cannot start() before stop() has completed'')\<rparr>)
       \<and> (status s this = STOPPED \<or> status s this = STOPPING \<longrightarrow>
           exec (Stop this options callback) s
             = s\<lparr>stack := [], thrown := Some (Error ''Cannot stop() before start()'')\<rparr>)
       \<and> (status s this = STARTING \<longrightarrow>
           exec (Stop this options callback) s
             = s\<lparr>stack := [], thrown := Some (Error ''Cannot stop() before start() has completed'')\<rparr>)
       \<and> Error ''Cannot start() before stop()'' \<noteq> Error ''Cannot start() before stop() has completed''
       \<and> Error ''Cannot stop() before start()'' \<noteq> Error ''Cannot stop() before start() has completed''"
  using assms
  by (simp add: AbstractRunner_start_def AbstractRunner_stop_def throw_def)

theorem C3_guards_witness:
  "\<not> graceful (Some (Options False))
   \<and> status (boot\<lparr>status := (\<lambda>r. STARTING)\<rparr>) 0 = STARTING
   \<and> thrown (exec (Start 0 (Some (Options False)) (Caller 0)) (boot\<lparr>status := (\<lambda>r. STARTING)\<rparr>))
       = Some (Error ''Cannot start() before stop()'')
   \<and> thrown (exec (Stop 0 (Some (Options False)) (Caller 0)) (boot\<lparr>status := (\<lambda>r. STARTING)\<rparr>))
       = Some (Error ''Cannot stop() before start() has completed'')
   \<and> trace (exec (Stop 0 (Some (Options False)) (Caller 0)) (boot\<lparr>status := (\<lambda>r. STARTING)\<rparr>)) = []"
  using C3_guards [of "Some (Options False)" "boot\<lparr>status := (\<lambda>r. STARTING)\<rparr>" 0 "Caller 0"]
  by (simp add: graceful_def boot_def)

section \<open>Stopping a composite runner\<close>

text \<open>
  C2. A started composite runner \<open>m\<close> (its children are started) is stopped. Then the
  stop hooks of all children run in stop order, each after the one before it has signalled
  completion, whether that one failed or not; the caller's callback is called once, with
  \<^verbatim>\<open>combine\<close> of all the errors the children's stops passed, in stop order, or with no
  error when there was none; and in the end everything is stopped.
\<close>

theorem C2_stop_all:
  assumes "kind s m = MultiRunner" "status s m = STARTED" "listeners s (m, EvStop) = []"
    "stopOrder (multi s m) = so" "distinct so" "m \<notin> set so"
    "\<forall>c\<in>set so. kind s c = DecoratedRunner \<and> status s c = STARTED
        \<and> listeners s (c, EvStop) = [] \<and> single (stop_fn (nut s c))"
    "thrown s = None" "idle s"
  shows "\<exists>s'. reaches (do_call (Stop m options (Caller u)) s) s' \<and> idle s' \<and> thrown s' = None
     \<and> trace s' = trace s @ [Hook m MStop (graceful options)] @ hook_trace MStop False (nut s) so
          @ [HookDone m MStop (aggregate (errors_of MStop (nut s) so))]
     \<and> plugin_log s' = plugin_log s @ call_log MStop (nut s) so
     \<and> delivered s' = delivered s @ [(u, aggregate (errors_of MStop (nut s) so))]
     \<and> (\<forall>c\<in>set so. status s' c = STOPPED) \<and> status s' m = STOPPED"
proof -
  let ?f = "next_frame s"
  let ?cb = "StopDone m (Caller u)"
  let ?s0 = "do_call (Stop m options (Caller u)) s"
  let ?s1 = "s\<lparr>stack := [Invoke (StopLoop ?f) None],
      status := (status s)(m := STOPPING),
      trace := trace s @ [Hook m MStop (graceful options)],
      frames := (frames s)(?f := \<lparr>f_self = m, f_runners = so, f_pos = 0, f_errors = [], f_callback = ?cb\<rparr>),
      next_frame := Suc ?f\<rparr>"
  have 1: "step ?s0 = ?s1"
    using assms
    by (simp add: step_def do_call_def idle_def AbstractRunner_stop_def stop_hook_def
        MultiRunner_stop_def new_frame_def Let_def)
  let ?agg = "aggregate (errors_of MStop (nut s) so)"
  let ?s2 = "?s1\<lparr>stack := [],
           ticks := [Invoke ?cb ?agg],
           frames := (frames ?s1)(?f := (frames ?s1 ?f)\<lparr>f_pos := length so,
              f_errors := errors_of MStop (nut s) so\<rparr>),
           status := (\<lambda>r. if r \<in> set so then STOPPED else status ?s1 r),
           trace := trace ?s1 @ hook_trace MStop False (nut s) so,
           plugin_log := plugin_log s @ call_log MStop (nut s) so\<rparr>"
  have prem: "\<forall>c\<in>set so. kind ?s1 c = DecoratedRunner \<and> status ?s1 c = STARTED
        \<and> listeners ?s1 (c, EvStop) = [] \<and> single (stop_fn (nut ?s1 c))"
    using assms by auto
  have 2: "reaches ?s1 ?s2"
    using stop_loop_run [of ?s1 ?f "[]" so None, OF _ _ assms(5) prem] assms
    by (simp add: idle_def opt_def aggregate_def cong: if_cong)
  let ?s3 = "?s2\<lparr>ticks := [], delivered := delivered s @ [(u, ?agg)],
       status := (\<lambda>r. if r \<in> set so \<or> r = m then STOPPED else status s r),
       trace := trace ?s2 @ [HookDone m MStop ?agg]\<rparr>"
  have 3: "reaches ?s2 ?s3"
    apply (rule reaches_step)
    apply (rule reaches_step)
    apply (rule reaches_step)
    apply (rule reaches_eq)
    using assms
    apply (simp add: step_def idle_def stop_done_def emit_nil do_call_def fun_eq_iff)
    done
  have "reaches ?s0 ?s3"
    by (rule reaches_step) (simp only: 1, rule reaches_trans [OF 2 3])
  moreover have "idle ?s3 \<and> thrown ?s3 = None"
    using assms by (simp add: idle_def)
  ultimately show ?thesis
    by (intro exI [of _ ?s3]) simp
qed

theorem C2_stop_all_witness:
  "\<exists>s'. reaches (do_call (Stop 0 None (Caller 7)) two_started) s' \<and> idle s'
     \<and> thrown s' = None
     \<and> trace s' = [Hook 0 MStop False,
          Hook 1 MStop False, HookDone 1 MStop (Some (Error ''stop failed'')),
          Hook 2 MStop False, HookDone 2 MStop None,
          HookDone 0 MStop (Some (combine [Error ''stop failed'']))]
     \<and> plugin_log s' = [Called ''a'' MStop, Done ''a'' MStop (Some (Error ''stop failed''))]
     \<and> delivered s' = [(7, Some (combine [Error ''stop failed'']))]
     \<and> status s' 1 = STOPPED \<and> status s' 2 = STOPPED \<and> status s' 0 = STOPPED"
  using C2_stop_all [of two_started 0 "[1, 2]" None 7]
  by (simp add: two_started_def boot_def plugin_a_def plugin_c_def idle_def single_def
      outcome_def opt_def plugin_events_def aggregate_def graceful_def)

section \<open>Starting a composite runner: roll back on failure\<close>

text \<open>
  C1. A composite runner \<open>m\<close> with the children \<open>cs\<close> in start order and \<open>so\<close> in stop
  order, nothing started, is started, and the start hook of child number \<open>k\<close> fails with
  \<open>e\<close> after those of the children before it succeeded. Then the start hooks of the
  children up to number \<open>k\<close> run, in start order, and no other; the stop hooks of the
  children before number \<open>k\<close> run, called with grace, in stop order, and no other stop
  hook; the caller's callback is called once, with \<^verbatim>\<open>combine\<close> of \<open>e\<close> and the errors
  of the stops; and in the end every child and the composite are stopped.
\<close>

theorem C1_rollback:
  assumes "kind s m = MultiRunner" "status s m = STOPPED" "listeners s (m, EvStart) = []"
    "startOrder (multi s m) = cs" "stopOrder (multi s m) = so"
    "distinct cs" "distinct so" "set so = set cs" "m \<notin> set cs" "k < length cs"
    "\<forall>c\<in>set cs. status s c = STOPPED"
    "\<forall>c\<in>set (take (Suc k) cs). kind s c = DecoratedRunner
        \<and> listeners s (c, EvStart) = [] \<and> single (start_fn (nut s c))"
    "\<forall>c\<in>set (take k cs). outcome (start_fn (nut s c)) = None
        \<and> listeners s (c, EvStop) = [] \<and> single (stop_fn (nut s c))"
    "outcome (start_fn (nut s (cs ! k))) = Some e"
    "thrown s = None" "idle s"
  shows "\<exists>s'. reaches (do_call (Start m options (Caller u)) s) s' \<and> idle s' \<and> thrown s' = None
     \<and> trace s' = trace s @ [Hook m MStart (graceful options)]
          @ hook_trace MStart False (nut s) (take (Suc k) cs)
          @ hook_trace MStop True (nut s) (filter (\<lambda>c. c \<in> set (take k cs)) so)
          @ [HookDone m MStart (Some (combine
               (e # errors_of MStop (nut s) (filter (\<lambda>c. c \<in> set (take k cs)) so))))]
     \<and> plugin_log s' = plugin_log s @ call_log MStart (nut s) (take (Suc k) cs)
          @ call_log MStop (nut s) (filter (\<lambda>c. c \<in> set (take k cs)) so)
     \<and> delivered s' = delivered s @ [(u, Some (combine
               (e # errors_of MStop (nut s) (filter (\<lambda>c. c \<in> set (take k cs)) so))))]
     \<and> (\<forall>c\<in>set cs. status s' c = STOPPED) \<and> status s' m = STOPPED"
proof -
  let ?f = "next_frame s"
  let ?g = "Suc (next_frame s)"
  let ?cb = "StartDone m (Caller u)"
  let ?s0 = "do_call (Start m options (Caller u)) s"
  let ?rb = "filter (\<lambda>c. c \<in> set (take k cs)) so"
  let ?agg = "Some (combine (e # errors_of MStop (nut s) ?rb))"
  let ?s1 = "s\<lparr>stack := [Invoke (StartLoop ?f) None],
      status := (status s)(m := STARTING),
      trace := trace s @ [Hook m MStart (graceful options)],
      multi := (multi s)(m := (multi s m)\<lparr>m_frozen := True\<rparr>),
      frames := (frames s)(?f := \<lparr>f_self = m, f_runners = cs, f_pos = 0, f_errors = [], f_callback = ?cb\<rparr>),
      next_frame := ?g\<rparr>"
  have 1: "step ?s0 = ?s1"
    using assms
    by (simp add: step_def do_call_def idle_def AbstractRunner_start_def start_hook_def
        MultiRunner_start_def new_frame_def Let_def)
  have tk: "set (take (Suc k) cs) \<subseteq> set cs" and tk': "set (take k cs) \<subseteq> set cs"
    by (auto dest: in_set_takeD)
  have tk2: "set (take k cs) \<subseteq> set (take (Suc k) cs)"
    by (rule set_take_subset_set_take) simp
  have p5: "\<forall>c\<in>set (take (Suc k) cs). kind ?s1 c = DecoratedRunner \<and> status ?s1 c = STOPPED
        \<and> listeners ?s1 (c, EvStart) = [] \<and> single (start_fn (nut ?s1 c))"
    using assms(9,11,12) tk by auto
  have p6: "\<forall>c\<in>set (take k cs). outcome (start_fn (nut ?s1 c)) = None"
    using assms(13) by simp
  let ?s2 = "?s1\<lparr>stack := [Invoke (StartLoop ?f) (Some e)],
           frames := (frames ?s1)(?f := (frames ?s1 ?f)\<lparr>f_pos := Suc k\<rparr>),
           status := (\<lambda>r. if r \<in> set (take k cs) then STARTED else status ?s1 r),
           trace := trace ?s1 @ hook_trace MStart False (nut s) (take (Suc k) cs),
           plugin_log := plugin_log s @ call_log MStart (nut s) (take (Suc k) cs)\<rparr>"
  have 2: "reaches ?s1 ?s2"
    using start_loop_fail [of ?s1 ?f cs k e, OF _ _ assms(10) assms(6) p5 p6] assms
    by (simp add: idle_def)
  let ?s3 = "?s2\<lparr>stack := [Invoke (CancelLoop ?g) None],
      frames := (frames ?s2)(?g := \<lparr>f_self = m, f_runners = so, f_pos = 0, f_errors = [e], f_callback = ?cb\<rparr>),
      next_frame := Suc ?g\<rparr>"
  have 3: "step ?s2 = ?s3"
    using assms
    by (simp add: step_def start_loop_def MultiRunner_cancelStart_def do_call_def new_frame_def Let_def)
  have st3: "\<And>c. c \<in> set so \<Longrightarrow> (status ?s3 c = STARTED) = (c \<in> set (take k cs))"
    using assms(8,9,11) by auto
  have rbk: "started_of (status ?s3) so = ?rb"
    by (rule started_of_filter) (use st3 in blast)
  have p4: "\<forall>c\<in>set so. status ?s3 c = STOPPED \<or> (status ?s3 c = STARTED \<and> kind ?s3 c = DecoratedRunner
        \<and> listeners ?s3 (c, EvStop) = [] \<and> single (stop_fn (nut ?s3 c)))"
    using assms(8,9,11,12,13) tk' tk2 by (auto dest: in_set_takeD)
  let ?s4 = "?s3\<lparr>stack := [],
           ticks := [Invoke ?cb ?agg],
           frames := (frames ?s3)(?g := (frames ?s3 ?g)\<lparr>f_pos := length so,
              f_errors := e # errors_of MStop (nut s) ?rb\<rparr>),
           status := (\<lambda>r. if r \<in> set so then STOPPED else status ?s3 r),
           trace := trace ?s3 @ hook_trace MStop True (nut s) ?rb,
           plugin_log := plugin_log ?s3 @ call_log MStop (nut s) ?rb\<rparr>"
  have 4: "reaches ?s3 ?s4"
    using cancel_loop_run [of ?s3 ?g "[]" so None, OF _ _ assms(7) p4, unfolded rbk] assms
    by (simp add: idle_def opt_def)
  let ?s5 = "?s4\<lparr>ticks := [], delivered := delivered s @ [(u, ?agg)],
       status := (\<lambda>r. if r \<in> set so \<or> r = m then STOPPED else status ?s3 r),
       trace := trace ?s4 @ [HookDone m MStart ?agg]\<rparr>"
  have 5: "reaches ?s4 ?s5"
    apply (rule reaches_step)
    apply (rule reaches_step)
    apply (rule reaches_step)
    apply (rule reaches_eq)
    using assms
    apply (simp add: step_def idle_def start_done_def emit_nil do_call_def fun_eq_iff)
    done
  have "reaches ?s0 ?s5"
    apply (rule reaches_step)
    apply (simp only: 1)
    apply (rule reaches_trans [OF 2])
    apply (rule reaches_step)
    apply (simp only: 3)
    apply (rule reaches_trans [OF 4 5])
    done
  moreover have "idle ?s5 \<and> thrown ?s5 = None"
    using assms by (simp add: idle_def)
  moreover have "\<forall>c\<in>set cs. status ?s5 c = STOPPED"
    using assms(8) by simp
  ultimately show ?thesis
    by (intro exI [of _ ?s5]) simp
qed

theorem C1_rollback_witness:
  "\<exists>s'. reaches (do_call (Start 0 None (Caller 7)) three_stopped) s' \<and> idle s'
     \<and> thrown s' = None
     \<and> trace s' = [Hook 0 MStart False,
          Hook 1 MStart False, HookDone 1 MStart None,
          Hook 2 MStart False, HookDone 2 MStart (Some (Error ''nope'')),
          Hook 1 MStop True, HookDone 1 MStop (Some (Error ''stop failed'')),
          HookDone 0 MStart (Some (combine [Error ''nope'', Error ''stop failed'']))]
     \<and> plugin_log s' = [Called ''a'' MStart, Done ''a'' MStart None,
          Called ''b'' MStart, Done ''b'' MStart (Some (Error ''nope'')),
          Called ''a'' MStop, Done ''a'' MStop (Some (Error ''stop failed''))]
     \<and> delivered s' = [(7, Some (combine [Error ''nope'', Error ''stop failed'']))]
     \<and> status s' 1 = STOPPED \<and> status s' 2 = STOPPED \<and> status s' 3 = STOPPED
     \<and> status s' 0 = STOPPED"
proof -
  have sets: "set [3, 1, 2] = set [1, 2, 3::nat]"
    by auto
  show ?thesis
    using C1_rollback [of three_stopped 0 "[1, 2, 3]" "[3, 1, 2]" 1 "Error ''nope''" None 7,
        OF _ _ _ _ _ _ _ sets]
    by (simp add: three_stopped_def boot_def plugin_a_def plugin_b_def plugin_c_def idle_def
        single_def outcome_def opt_def plugin_events_def graceful_def)
qed

end
